theory Spec2Isabelle
  imports Complex_Main "HOL-Library.Word"
begin

section \<open>Memory cells and faults\<close>

text \<open>
  The sources work on C arrays that \<^verbatim>\<open>malloc\<close> or the stack hands out uninitialised.
  A cell of such an array is modelled as an option: \<open>None\<close> is a cell that no code has
  written yet, \<open>Some v\<close> a cell holding \<open>v\<close>. The sample type \<open>'a\<close> (C \<^verbatim>\<open>float\<close>) stays
  a type parameter: no function of the sources computes with a sample.

  Behaviour that C leaves undefined is a value of \<open>fault\<close>.
\<close>

type_synonym 'a cell = "'a option"

datatype fault =
    Division_by_zero
  | Indeterminate_pointer
  | Out_of_bounds

section \<open>The device, seen from \<^verbatim>\<open>wsa_sweep_device.c\<close>\<close>

text \<open>
  \<^verbatim>\<open>struct wsa_vrt_packet_header\<close> and the stream and packet type constants are declared
  in a header that is not among the sources. The fields are those that
  \<^verbatim>\<open>wsa_dump_vrt_packet_header\<close> reads; the two tag fields are datatypes with one
  constructor for each constant the source compares against and one for every other value.
\<close>

datatype stream_id =
    RECEIVER_STREAM_ID
  | DIGITIZER_STREAM_ID
  | EXTENSION_STREAM_ID
  | I16Q16_DATA_STREAM_ID
  | I16_DATA_STREAM_ID
  | I32_DATA_STREAM_ID
  | UNKNOWN_STREAM_ID "32 word"

datatype packet_type =
    IF_PACKET_TYPE
  | CONTEXT_PACKET_TYPE
  | EXTENSION_PACKET_TYPE
  | UNKNOWN_PACKET_TYPE nat

record wsa_vrt_packet_header =
  stream_id :: stream_id
  packet_type :: packet_type
  pkt_count :: nat
  samples_per_packet :: nat
  time_stamp_sec :: nat
  time_stamp_psec :: nat

text \<open>
  The device library (\<^verbatim>\<open>wsa_flush_data\<close>, \<^verbatim>\<open>wsa_capture_block\<close>,
  \<^verbatim>\<open>wsa_read_vrt_packet\<close>, ...) is outside the sources. A call to it is recorded as
  a \<open>dev_op\<close> in the order the code makes it; what the device answers is an input:
  the result of the capture trigger, and for the \<open>k\<close>-th packet read (counted from 0) the
  result code and the header it fills in. Result codes are \<^verbatim>\<open>int16_t\<close> in the source and
  only ever tested for \<^verbatim>\<open>< 0\<close>; they are integers here.
\<close>

datatype dev_op =
    Wsa_flush_data
  | Wsa_set_rfe_input_mode string
  | Wsa_set_samples_per_packet nat
  | Wsa_set_packets_per_block nat
  | Wsa_capture_block
  | Wsa_read_vrt_packet nat nat

record wsa_device =
  capture_block_result :: int
  read_vrt_packet_result :: "nat \<Rightarrow> int \<times> wsa_vrt_packet_header"

section \<open>\<^verbatim>\<open>wsa_power_spectrum_alloc\<close>\<close>

text \<open>
  \<^verbatim>\<open>struct wsa_power_spectrum_config\<close> is declared in the missing header too. Its fields
  are the ones the source assigns. \<^verbatim>\<open>fstart\<close>, \<^verbatim>\<open>fstop\<close> and \<^verbatim>\<open>rbw\<close> have the types
  of the parameters stored in them; \<^verbatim>\<open>buflen\<close> is taken to be \<^verbatim>\<open>uint32_t\<close>, the type
  of the \<^verbatim>\<open>buflen\<close> parameter of \<^verbatim>\<open>peakfind\<close> that receives it (the source prints it
  with \<^verbatim>\<open>%d\<close>). \<open>buf\<close> is the content of the allocated array.
\<close>

record 'a wsa_power_spectrum_config =
  fstart :: "64 word"
  fstop :: "64 word"
  rbw :: "32 word"
  buflen :: "32 word"
  buf :: "'a cell list"

text \<open>
  The two booleans say whether the first and the second \<^verbatim>\<open>malloc\<close> return memory.
  The result is the returned \<^verbatim>\<open>int\<close> and the configuration \<^verbatim>\<open>*pscfg\<close> points to:
  \<open>None\<close> when the pointer was never assigned or points to freed memory.
  \<^verbatim>\<open>(fstop - fstart) / rbw\<close> is computed in 64 bits, \<^verbatim>\<open>rbw\<close> being promoted, and
  stored in the 32-bit \<^verbatim>\<open>buflen\<close>. The \<^verbatim>\<open>mode\<close> parameter is not used by the source.
\<close>

definition wsa_power_spectrum_alloc ::
  "bool \<Rightarrow> bool \<Rightarrow> 64 word \<Rightarrow> 64 word \<Rightarrow> 32 word \<Rightarrow> string
    \<Rightarrow> fault + int \<times> 'a wsa_power_spectrum_config option"
where
  "wsa_power_spectrum_alloc cfg_mem buf_mem f_start f_stop r_bw mode =
     (if \<not> cfg_mem then Inr (- 1, None)
      else if r_bw = 0 then Inl Division_by_zero
      else
        let n = (ucast ((f_stop - f_start) div ucast r_bw) :: 32 word) in
        if \<not> buf_mem then Inr (- 1, None)
        else Inr (0, Some \<lparr>fstart = f_start, fstop = f_stop, rbw = r_bw,
                            buflen = n, buf = replicate (unat n) None\<rparr>))"

section \<open>\<^verbatim>\<open>wsa_capture_power_spectrum\<close>\<close>

text \<open>
  The \<^verbatim>\<open>while(1)\<close> loop: \<open>k\<close> counts the reads made so far, \<open>seen\<close> collects the headers
  handed to \<^verbatim>\<open>wsa_dump_vrt_packet_header\<close>. \<open>Inl\<close> is the \<^verbatim>\<open>return -1\<close> inside the
  loop, \<open>Inr\<close> the \<^verbatim>\<open>break\<close>; both carry the number of reads made and the headers dumped.
  A device that keeps delivering packets that are not IF packets keeps the loop running:
  the result is then \<open>None\<close>. The sample buffers that the loop poisons and the reader
  fills are locals that nothing reads afterwards; they and the diagnostic prints are left
  out.
\<close>

partial_function (option) read_loop ::
  "(nat \<Rightarrow> int \<times> wsa_vrt_packet_header) \<Rightarrow> nat \<Rightarrow> wsa_vrt_packet_header list
    \<Rightarrow> (nat \<times> wsa_vrt_packet_header list + nat \<times> wsa_vrt_packet_header list) option"
where
  "read_loop rd k seen =
     (case rd k of (result, header) \<Rightarrow>
        if result < 0 then Some (Inl (Suc k, seen))
        else if packet_type header = IF_PACKET_TYPE then Some (Inr (Suc k, seen @ [header]))
        else read_loop rd (Suc k) (seen @ [header]))"

text \<open>
  What a call leaves behind: the returned \<^verbatim>\<open>int\<close>, the device calls in order, the
  headers dumped, the configuration (with its buffer) and the caller's convenience
  pointer \<^verbatim>\<open>*buf\<close>, \<open>None\<close> being the null pointer.
\<close>

record 'a capture_outcome =
  status :: int
  ops :: "dev_op list"
  dumped :: "wsa_vrt_packet_header list"
  cfg_after :: "'a wsa_power_spectrum_config"
  buf_ptr :: "'a cell list option"

text \<open>
  \<open>shn\<close> is the value of the macro \<^verbatim>\<open>WSA_RFE_SHN_STRING\<close>, defined in the missing
  header. The function tests \<^verbatim>\<open>*buf\<close>, not \<^verbatim>\<open>buf\<close>, before it stores the buffer's
  address there. Nothing after the loop touches \<^verbatim>\<open>cfg->buf\<close>: the two comment blocks
  "fft that" and "apply reflevel" hold no code.
\<close>

definition wsa_capture_power_spectrum ::
  "string \<Rightarrow> wsa_device \<Rightarrow> 'a wsa_power_spectrum_config \<Rightarrow> 'a cell list option
    \<Rightarrow> 'a capture_outcome option"
where
  "wsa_capture_power_spectrum shn dev cfg bufp =
     (let bufp' = (if bufp \<noteq> None then Some (buf cfg) else bufp);
          ops0 = [Wsa_flush_data, Wsa_set_rfe_input_mode shn,
                  Wsa_set_samples_per_packet 1024, Wsa_set_packets_per_block 1,
                  Wsa_capture_block]
      in
        if capture_block_result dev < 0
        then Some \<lparr>status = - 1, ops = ops0, dumped = [], cfg_after = cfg, buf_ptr = bufp'\<rparr>
        else
          (case read_loop (read_vrt_packet_result dev) 0 [] of
             None \<Rightarrow> None
           | Some (Inl (k, seen)) \<Rightarrow>
               Some \<lparr>status = - 1, ops = ops0 @ replicate k (Wsa_read_vrt_packet 1024 5000),
                     dumped = seen, cfg_after = cfg, buf_ptr = bufp'\<rparr>
           | Some (Inr (k, seen)) \<Rightarrow>
               Some \<lparr>status = 0, ops = ops0 @ replicate k (Wsa_read_vrt_packet 1024 5000),
                     dumped = seen, cfg_after = cfg, buf_ptr = bufp'\<rparr>))"

section \<open>\<^verbatim>\<open>peakfind\<close>\<close>

text \<open>
  The \<^verbatim>\<open>for\<close> loop of \<^verbatim>\<open>peakfind\<close>; its body is empty. The state is the local
  \<^verbatim>\<open>found\<close> and the two output arrays.
\<close>

function peakfind_loop ::
  "32 word \<Rightarrow> 32 word \<Rightarrow> int \<times> 64 word cell list \<times> 'a cell list
    \<Rightarrow> int \<times> 64 word cell list \<times> 'a cell list"
where
  "peakfind_loop n i s = (if i < n then peakfind_loop n (i + 1) s else s)"
  by pat_completeness auto
termination
proof (relation "measure (\<lambda>(n, i, s). unat n - unat i)")
  show "wf (measure (\<lambda>(n :: 32 word, i :: 32 word,
      s :: int \<times> 64 word cell list \<times> 'a cell list). unat n - unat i))"
    by simp
next
  fix n i :: "32 word" and s :: "int \<times> 64 word cell list \<times> 'a cell list"
  assume less: "i < n"
  then have lt: "unat i < unat n"
    by (simp add: word_less_nat_alt)
  have "unat n < 2 ^ 32"
    using unsigned_less [of n] by simp
  with lt have small: "unat i + 1 < 2 ^ 32"
    by simp
  have "unat (i + 1) = (unat i + 1) mod 2 ^ 32"
    by (simp add: unat_word_ariths)
  with small have "unat (i + 1) = unat i + 1"
    by simp
  moreover note lt
  ultimately show "((n, i + 1, s), (n, i, s)) \<in> measure (\<lambda>(n, i, s). unat n - unat i)"
    by simp
qed

declare peakfind_loop.simps [simp del]

definition peakfind ::
  "'a cell list \<Rightarrow> 32 word \<Rightarrow> 32 word \<Rightarrow> int \<Rightarrow> 64 word cell list \<Rightarrow> 'a cell list
    \<Rightarrow> int \<times> 64 word cell list \<times> 'a cell list"
where
  "peakfind b n hzperbin peaks pfreq pamp =
     (case peakfind_loop n 0 (0, pfreq, pamp) of
        (found, pfreq', pamp') \<Rightarrow> (0, pfreq', pamp'))"

section \<open>The tail of \<^verbatim>\<open>main\<close>: allocate, capture, find peaks, print\<close>

definition MAXPEAKS :: nat where
  "MAXPEAKS = 256"

text \<open>
  The printing loop of \<^verbatim>\<open>main\<close>: for every \<^verbatim>\<open>i < peaks\<close> it prints \<^verbatim>\<open>pamp[i]\<close> and
  \<^verbatim>\<open>pfreq[i] + fstart\<close>. Reading past the end of an array is a fault.
\<close>

definition print_results ::
  "64 word \<Rightarrow> 32 word \<Rightarrow> 64 word cell list \<Rightarrow> 'a cell list
    \<Rightarrow> fault + ('a cell \<times> 64 word cell) list"
where
  "print_results f_start peaks pfreq pamp =
     (if unat peaks \<le> length pamp \<and> unat peaks \<le> length pfreq
      then Inr (map (\<lambda>i. (pamp ! i, map_option (\<lambda>f. f + f_start) (pfreq ! i)))
                  [0..<unat peaks])
      else Inl Out_of_bounds)"

record 'a main_outcome =
  capture :: "'a capture_outcome"
  hzperbin_passed :: "32 word"
  peakfind_returned :: int
  printed :: "('a cell \<times> 64 word cell) list"

text \<open>
  Lines 276 to 289 of \<^verbatim>\<open>peakfind.c\<close>. In \<^verbatim>\<open>main\<close>, \<^verbatim>\<open>rbw\<close> is a \<^verbatim>\<open>uint64_t\<close>
  and \<^verbatim>\<open>peaks\<close> a \<^verbatim>\<open>uint32_t\<close>; the calls convert them to the parameter types.
  \<^verbatim>\<open>main\<close> ignores what \<^verbatim>\<open>wsa_power_spectrum_alloc\<close> and
  \<^verbatim>\<open>wsa_capture_power_spectrum\<close> return. After a failed allocation \<^verbatim>\<open>pscfg\<close> holds no
  valid pointer, and passing it on is a fault. \<open>psbuf\<close> is what the uninitialised
  \<^verbatim>\<open>psbuf\<close> happens to hold; \<^verbatim>\<open>pfreq\<close> and \<^verbatim>\<open>pamp\<close> are \<open>MAXPEAKS\<close> unwritten cells.
  The third argument of \<^verbatim>\<open>peakfind\<close>, its \<^verbatim>\<open>hzperbin\<close>, is
  \<^verbatim>\<open>(fstop - fstart) / rbw\<close>.
\<close>

definition main_sweep ::
  "string \<Rightarrow> bool \<Rightarrow> bool \<Rightarrow> wsa_device \<Rightarrow> 'a cell list option
    \<Rightarrow> 64 word \<Rightarrow> 64 word \<Rightarrow> 64 word \<Rightarrow> 32 word \<Rightarrow> string
    \<Rightarrow> (fault + 'a main_outcome) option"
where
  "main_sweep shn cfg_mem buf_mem dev psbuf f_start f_stop r_bw peaks mode =
     (case wsa_power_spectrum_alloc cfg_mem buf_mem f_start f_stop (ucast r_bw) mode of
        Inl f \<Rightarrow> Some (Inl f)
      | Inr (result, None) \<Rightarrow> Some (Inl Indeterminate_pointer)
      | Inr (result, Some pscfg) \<Rightarrow>
          (case wsa_capture_power_spectrum shn dev pscfg psbuf of
             None \<Rightarrow> None
           | Some out \<Rightarrow>
               if r_bw = 0 then Some (Inl Division_by_zero)
               else
                 let hz = (ucast ((f_stop - f_start) div r_bw) :: 32 word) in
                 (case peakfind (buf (cfg_after out)) (buflen (cfg_after out)) hz (sint peaks)
                         (replicate MAXPEAKS None) (replicate MAXPEAKS None) of
                    (r, pfreq, pamp) \<Rightarrow>
                      (case print_results f_start peaks pfreq pamp of
                         Inl f \<Rightarrow> Some (Inl f)
                       | Inr lines \<Rightarrow>
                           Some (Inr \<lparr>capture = out, hzperbin_passed = hz,
                                      peakfind_returned = r, printed = lines\<rparr>)))))"

section \<open>Counting the captures of a sweep\<close>

text \<open>The number of capture triggers among the device calls of a sweep.\<close>

definition captures_issued :: "'a capture_outcome \<Rightarrow> nat" where
  "captures_issued out = length (filter (\<lambda>x. x = Wsa_capture_block) (ops out))"

section \<open>What the spec states, for comparison with the code\<close>

text \<open>
  The number of capture steps the spec gives for a plan: \<open>bin_count\<close> divided by the bins
  per capture, rounded up, the bins per capture being half the samples per packet.
\<close>

definition bins_per_capture :: nat where
  "bins_per_capture = 1024 div 2"

definition spec_step_count :: "'a wsa_power_spectrum_config \<Rightarrow> nat" where
  "spec_step_count cfg = (unat (buflen cfg) + bins_per_capture - 1) div bins_per_capture"

text \<open>
  The device calls of one capture step in the order the spec lists them, up to the
  trigger: input mode (the caller's string), capture geometry, flush, trigger.
\<close>

definition spec_capture_setup :: "string \<Rightarrow> dev_op list" where
  "spec_capture_setup mode =
     [Wsa_set_rfe_input_mode mode, Wsa_set_samples_per_packet 1024,
      Wsa_set_packets_per_block 1, Wsa_flush_data, Wsa_capture_block]"

text \<open>
  The properties the spec gives for the result of the peak finder, over a spectrum \<open>v\<close>
  whose bins are all written: every reported peak is a bin that is at least as large as
  each neighbour it has, labelled \<open>f_start + i * hz\<close>; the sequence is sorted by descending
  amplitude, ties by ascending frequency; it is no longer than \<open>max_peaks\<close> and no longer
  than the number of local maxima.
\<close>

definition local_maximum :: "'a::linorder list \<Rightarrow> nat \<Rightarrow> bool" where
  "local_maximum v i \<longleftrightarrow>
     i < length v \<and> (i = 0 \<or> v ! (i - 1) \<le> v ! i) \<and> (Suc i = length v \<or> v ! Suc i \<le> v ! i)"

definition spec_peaks ::
  "'a::linorder list \<Rightarrow> 32 word \<Rightarrow> 64 word \<Rightarrow> nat \<Rightarrow> ('a cell \<times> 64 word cell) list \<Rightarrow> bool"
where
  "spec_peaks v hz f_start max_peaks ps \<longleftrightarrow>
     (\<forall>p \<in> set ps. \<exists>i \<in> set [0..<length v].
        local_maximum v i \<and> p = (Some (v ! i), Some (f_start + of_nat i * ucast hz)))
     \<and> sorted_wrt (\<lambda>p q. the (fst q) < the (fst p)
                        \<or> (fst p = fst q \<and> the (snd p) < the (snd q))) ps
     \<and> length ps \<le> max_peaks
     \<and> length ps \<le> length (filter (local_maximum v) [0..<length v])"

section \<open>Test inputs\<close>

definition header_of :: "stream_id \<Rightarrow> packet_type \<Rightarrow> wsa_vrt_packet_header" where
  "header_of s t = \<lparr>stream_id = s, packet_type = t, pkt_count = 0, samples_per_packet = 1024,
     time_stamp_sec = 0, time_stamp_psec = 0\<rparr>"

text \<open>A device that accepts the trigger and answers every read with an IF packet.\<close>

definition if_device :: wsa_device where
  "if_device = \<lparr>capture_block_result = 0,
     read_vrt_packet_result = (\<lambda>k. (0, header_of I16Q16_DATA_STREAM_ID IF_PACKET_TYPE))\<rparr>"

text \<open>
  A device that sends a receiver context packet, then a context packet with a stream id
  that matches no constant, then IF packets.
\<close>

definition noisy_device :: wsa_device where
  "noisy_device = \<lparr>capture_block_result = 0,
     read_vrt_packet_result = (\<lambda>k.
       if k = 0 then (0, header_of RECEIVER_STREAM_ID CONTEXT_PACKET_TYPE)
       else if k = 1 then (0, header_of (UNKNOWN_STREAM_ID 3735928559) CONTEXT_PACKET_TYPE)
       else (0, header_of I16Q16_DATA_STREAM_ID IF_PACKET_TYPE))\<rparr>"

text \<open>
  A device that accepts the trigger, sends one context packet and then lets every read
  fail with the code \<open>- 5\<close>.
\<close>

definition timeout_device :: wsa_device where
  "timeout_device = \<lparr>capture_block_result = 0,
     read_vrt_packet_result = (\<lambda>k.
       if k = 0 then (0, header_of RECEIVER_STREAM_ID CONTEXT_PACKET_TYPE)
       else (- 5, header_of RECEIVER_STREAM_ID CONTEXT_PACKET_TYPE))\<rparr>"

text \<open>
  A device that accepts the trigger and whose first read fails with the code \<open>- 1\<close>, the
  header showing a context packet with a stream id that matches no constant: a packet
  reader that reports the unknown stream id as a failure. IF packets follow.
\<close>

definition rejecting_reader_device :: wsa_device where
  "rejecting_reader_device = \<lparr>capture_block_result = 0,
     read_vrt_packet_result = (\<lambda>k.
       if k = 0 then (- 1, header_of (UNKNOWN_STREAM_ID 3735928559) CONTEXT_PACKET_TYPE)
       else (0, header_of I16Q16_DATA_STREAM_ID IF_PACKET_TYPE))\<rparr>"

text \<open>The configuration that a successful allocation makes for the plan 0 to 4 Hz, 1 Hz wide bins.\<close>

definition small_cfg :: "real wsa_power_spectrum_config" where
  "small_cfg = \<lparr>fstart = 0, fstop = 4, rbw = 1, buflen = 4, buf = replicate 4 None\<rparr>"

text \<open>The same for the driver's default plan: 2 GHz to 3 GHz, 100 kHz wide bins.\<close>

definition default_cfg :: "real wsa_power_spectrum_config" where
  "default_cfg = \<lparr>fstart = 2000000000, fstop = 3000000000, rbw = 100000, buflen = 10000,
     buf = replicate 10000 None\<rparr>"

text \<open>The same for a plan whose stop frequency equals its start frequency.\<close>

definition empty_cfg :: "real wsa_power_spectrum_config" where
  "empty_cfg = \<lparr>fstart = 5, fstop = 5, rbw = 1, buflen = 0, buf = []\<rparr>"

text \<open>
  What a sweep over a configuration \<open>cfg\<close> leaves behind when the macro is \<^verbatim>\<open>"SHN"\<close>,
  the device is \<open>if_device\<close> and \<^verbatim>\<open>*buf\<close> is null; and what the tail of \<^verbatim>\<open>main\<close>
  yields for the plan of \<open>small_cfg\<close> and one peak.
\<close>

definition if_capture :: "real wsa_power_spectrum_config \<Rightarrow> real capture_outcome" where
  "if_capture cfg = \<lparr>status = 0,
     ops = [Wsa_flush_data, Wsa_set_rfe_input_mode ''SHN'', Wsa_set_samples_per_packet 1024,
            Wsa_set_packets_per_block 1, Wsa_capture_block, Wsa_read_vrt_packet 1024 5000],
     dumped = [header_of I16Q16_DATA_STREAM_ID IF_PACKET_TYPE],
     cfg_after = cfg, buf_ptr = None\<rparr>"

text \<open>
  What a sweep over \<open>small_cfg\<close> leaves behind when the macro is \<^verbatim>\<open>"SHN"\<close>, the device is
  \<open>noisy_device\<close> and \<^verbatim>\<open>*buf\<close> is null.
\<close>

definition noisy_capture :: "real capture_outcome" where
  "noisy_capture = \<lparr>status = 0,
     ops = [Wsa_flush_data, Wsa_set_rfe_input_mode ''SHN'', Wsa_set_samples_per_packet 1024,
            Wsa_set_packets_per_block 1, Wsa_capture_block,
            Wsa_read_vrt_packet 1024 5000, Wsa_read_vrt_packet 1024 5000,
            Wsa_read_vrt_packet 1024 5000],
     dumped = [header_of RECEIVER_STREAM_ID CONTEXT_PACKET_TYPE,
               header_of (UNKNOWN_STREAM_ID 3735928559) CONTEXT_PACKET_TYPE,
               header_of I16Q16_DATA_STREAM_ID IF_PACKET_TYPE],
     cfg_after = small_cfg, buf_ptr = None\<rparr>"

definition small_run :: "real main_outcome" where
  "small_run = \<lparr>capture = if_capture small_cfg, hzperbin_passed = 4, peakfind_returned = 0,
     printed = [(None, None)]\<rparr>"

section \<open>Facts about the loops\<close>

lemma peakfind_loop_id: "peakfind_loop n i s = s"
proof (induction n i s rule: peakfind_loop.induct)
  case (1 n i s)
  show ?case
  proof (cases "i < n")
    case True
    then have "peakfind_loop n i s = peakfind_loop n (i + 1) s"
      by (subst peakfind_loop.simps) simp
    with True "1.IH" show ?thesis by simp
  next
    case False
    then show ?thesis
      by (subst peakfind_loop.simps) simp
  qed
qed

lemma read_loop_fail:
  "fst (rd k) < 0 \<Longrightarrow> read_loop rd k seen = Some (Inl (Suc k, seen))"
  by (subst read_loop.simps, cases "rd k", simp)

lemma read_loop_if:
  "0 \<le> fst (rd k) \<Longrightarrow> packet_type (snd (rd k)) = IF_PACKET_TYPE
    \<Longrightarrow> read_loop rd k seen = Some (Inr (Suc k, seen @ [snd (rd k)]))"
  by (subst read_loop.simps, cases "rd k", simp)

lemma read_loop_step:
  "0 \<le> fst (rd k) \<Longrightarrow> packet_type (snd (rd k)) \<noteq> IF_PACKET_TYPE
    \<Longrightarrow> read_loop rd k seen = read_loop rd (Suc k) (seen @ [snd (rd k)])"
  by (subst read_loop.simps, cases "rd k", simp)

lemma read_loop_skip:
  "(\<And>j. j < n \<Longrightarrow> 0 \<le> fst (rd (k + j)) \<and> packet_type (snd (rd (k + j))) \<noteq> IF_PACKET_TYPE)
    \<Longrightarrow> read_loop rd k seen
        = read_loop rd (k + n) (seen @ map (\<lambda>j. snd (rd j)) [k..<k + n])"
proof (induction n arbitrary: k seen)
  case 0
  show ?case by simp
next
  case (Suc n)
  from Suc.prems [of 0]
  have first: "0 \<le> fst (rd k)" "packet_type (snd (rd k)) \<noteq> IF_PACKET_TYPE"
    by simp_all
  have rest: "0 \<le> fst (rd (Suc k + j)) \<and> packet_type (snd (rd (Suc k + j))) \<noteq> IF_PACKET_TYPE"
    if "j < n" for j
    using Suc.prems [of "Suc j"] that by simp
  have idx: "Suc k + n = k + Suc n"
    by simp
  have "[k..<k + Suc n] = k # [Suc k..<k + Suc n]"
    by (rule upt_conv_Cons) simp
  then have unroll: "seen @ map (\<lambda>j. snd (rd j)) [k..<k + Suc n]
      = (seen @ [snd (rd k)]) @ map (\<lambda>j. snd (rd j)) [Suc k..<Suc k + n]"
    by (simp only: idx list.map append_assoc append.simps)
  have "read_loop rd k seen = read_loop rd (Suc k) (seen @ [snd (rd k)])"
    using first by (rule read_loop_step)
  also have "\<dots> = read_loop rd (Suc k + n)
      ((seen @ [snd (rd k)]) @ map (\<lambda>j. snd (rd j)) [Suc k..<Suc k + n])"
    using rest by (rule Suc.IH)
  finally show ?case
    by (simp only: unroll idx)
qed

lemma read_loop_break:
  assumes "read_loop rd k seen = Some r"
  shows "case r of Inl x \<Rightarrow> True
         | Inr (m, hs) \<Rightarrow> hs \<noteq> [] \<and> packet_type (last hs) = IF_PACKET_TYPE"
proof (rule read_loop.raw_induct [where P = "\<lambda>rd k seen r. case r of Inl x \<Rightarrow> True
         | Inr (m, hs) \<Rightarrow> hs \<noteq> [] \<and> packet_type (last hs) = IF_PACKET_TYPE", OF _ assms])
  fix f rd k seen r
  assume IH: "\<And>rd k seen r. f rd k seen = Some r \<Longrightarrow>
      (case r of Inl x \<Rightarrow> True
         | Inr (m, hs) \<Rightarrow> hs \<noteq> [] \<and> packet_type (last hs) = IF_PACKET_TYPE)"
    and body: "(case rd k of (result, header) \<Rightarrow>
        if result < 0 then Some (Inl (Suc k, seen))
        else if packet_type header = IF_PACKET_TYPE then Some (Inr (Suc k, seen @ [header]))
        else f rd (Suc k) (seen @ [header])) = Some r"
  obtain result header where rd: "rd k = (result, header)"
    by (cases "rd k")
  show "case r of Inl x \<Rightarrow> True
         | Inr (m, hs) \<Rightarrow> hs \<noteq> [] \<and> packet_type (last hs) = IF_PACKET_TYPE"
  proof (cases "result < 0")
    case True
    with body rd show ?thesis by auto
  next
    case False
    show ?thesis
    proof (cases "packet_type header = IF_PACKET_TYPE")
      case True
      with False body rd show ?thesis by auto
    next
      case notif: False
      with False body rd have "f rd (Suc k) (seen @ [header]) = Some r"
        by simp
      then show ?thesis by (rule IH)
    qed
  qed
qed

lemma read_loop_stops:
  assumes "read_loop rd k seen = Some r"
  shows "case r of
      Inl (m, hs) \<Rightarrow> k < m
        \<and> (\<forall>j. k \<le> j \<and> j < m - 1 \<longrightarrow>
              0 \<le> fst (rd j) \<and> packet_type (snd (rd j)) \<noteq> IF_PACKET_TYPE)
        \<and> fst (rd (m - 1)) < 0
    | Inr (m, hs) \<Rightarrow> k < m
        \<and> (\<forall>j. k \<le> j \<and> j < m - 1 \<longrightarrow>
              0 \<le> fst (rd j) \<and> packet_type (snd (rd j)) \<noteq> IF_PACKET_TYPE)
        \<and> 0 \<le> fst (rd (m - 1)) \<and> packet_type (snd (rd (m - 1))) = IF_PACKET_TYPE"
proof (rule read_loop.raw_induct [where P = "\<lambda>rd k seen r. case r of
      Inl (m, hs) \<Rightarrow> k < m
        \<and> (\<forall>j. k \<le> j \<and> j < m - 1 \<longrightarrow>
              0 \<le> fst (rd j) \<and> packet_type (snd (rd j)) \<noteq> IF_PACKET_TYPE)
        \<and> fst (rd (m - 1)) < 0
    | Inr (m, hs) \<Rightarrow> k < m
        \<and> (\<forall>j. k \<le> j \<and> j < m - 1 \<longrightarrow>
              0 \<le> fst (rd j) \<and> packet_type (snd (rd j)) \<noteq> IF_PACKET_TYPE)
        \<and> 0 \<le> fst (rd (m - 1)) \<and> packet_type (snd (rd (m - 1))) = IF_PACKET_TYPE",
      OF _ assms])
  fix f and rd :: "nat \<Rightarrow> int \<times> wsa_vrt_packet_header" and k seen r
  assume IH: "\<And>rd k seen r. f rd k seen = Some r \<Longrightarrow>
      (case r of
      Inl (m, hs) \<Rightarrow> k < m
        \<and> (\<forall>j. k \<le> j \<and> j < m - 1 \<longrightarrow>
              0 \<le> fst (rd j) \<and> packet_type (snd (rd j)) \<noteq> IF_PACKET_TYPE)
        \<and> fst (rd (m - 1)) < 0
    | Inr (m, hs) \<Rightarrow> k < m
        \<and> (\<forall>j. k \<le> j \<and> j < m - 1 \<longrightarrow>
              0 \<le> fst (rd j) \<and> packet_type (snd (rd j)) \<noteq> IF_PACKET_TYPE)
        \<and> 0 \<le> fst (rd (m - 1)) \<and> packet_type (snd (rd (m - 1))) = IF_PACKET_TYPE)"
    and body: "(case rd k of (result, header) \<Rightarrow>
        if result < 0 then Some (Inl (Suc k, seen))
        else if packet_type header = IF_PACKET_TYPE then Some (Inr (Suc k, seen @ [header]))
        else f rd (Suc k) (seen @ [header])) = Some r"
  obtain result header where rd: "rd k = (result, header)"
    by (cases "rd k")
  show "case r of
      Inl (m, hs) \<Rightarrow> k < m
        \<and> (\<forall>j. k \<le> j \<and> j < m - 1 \<longrightarrow>
              0 \<le> fst (rd j) \<and> packet_type (snd (rd j)) \<noteq> IF_PACKET_TYPE)
        \<and> fst (rd (m - 1)) < 0
    | Inr (m, hs) \<Rightarrow> k < m
        \<and> (\<forall>j. k \<le> j \<and> j < m - 1 \<longrightarrow>
              0 \<le> fst (rd j) \<and> packet_type (snd (rd j)) \<noteq> IF_PACKET_TYPE)
        \<and> 0 \<le> fst (rd (m - 1)) \<and> packet_type (snd (rd (m - 1))) = IF_PACKET_TYPE"
  proof (cases "result < 0")
    case True
    with body rd show ?thesis by auto
  next
    case False
    show ?thesis
    proof (cases "packet_type header = IF_PACKET_TYPE")
      case True
      with False body rd show ?thesis by (auto simp: not_less)
    next
      case notif: False
      with False body rd have "f rd (Suc k) (seen @ [header]) = Some r"
        by simp
      from IH [OF this] have later: "case r of
          Inl (m, hs) \<Rightarrow> Suc k < m
            \<and> (\<forall>j. Suc k \<le> j \<and> j < m - 1 \<longrightarrow>
                  0 \<le> fst (rd j) \<and> packet_type (snd (rd j)) \<noteq> IF_PACKET_TYPE)
            \<and> fst (rd (m - 1)) < 0
        | Inr (m, hs) \<Rightarrow> Suc k < m
            \<and> (\<forall>j. Suc k \<le> j \<and> j < m - 1 \<longrightarrow>
                  0 \<le> fst (rd j) \<and> packet_type (snd (rd j)) \<noteq> IF_PACKET_TYPE)
            \<and> 0 \<le> fst (rd (m - 1)) \<and> packet_type (snd (rd (m - 1))) = IF_PACKET_TYPE" .
      have here: "0 \<le> fst (rd k) \<and> packet_type (snd (rd k)) \<noteq> IF_PACKET_TYPE"
        using rd False notif by (simp add: not_less)
      have step: "0 \<le> fst (rd j) \<and> packet_type (snd (rd j)) \<noteq> IF_PACKET_TYPE"
        if "k \<le> j"
          and "Suc k \<le> j \<Longrightarrow> 0 \<le> fst (rd j) \<and> packet_type (snd (rd j)) \<noteq> IF_PACKET_TYPE"
        for j
      proof (cases "j = k")
        case True
        with here show ?thesis by simp
      next
        case False
        with that(1) have "Suc k \<le> j" by simp
        then show ?thesis by (rule that(2))
      qed
      show ?thesis
      proof (cases r)
        case (Inl p)
        obtain m hs where p: "p = (m, hs)" by (cases p)
        from later Inl p have a: "Suc k < m"
          and b: "\<forall>j. Suc k \<le> j \<and> j < m - 1 \<longrightarrow>
                  0 \<le> fst (rd j) \<and> packet_type (snd (rd j)) \<noteq> IF_PACKET_TYPE"
          and c: "fst (rd (m - 1)) < 0"
          by simp_all
        from b have "\<forall>j. k \<le> j \<and> j < m - 1 \<longrightarrow>
            0 \<le> fst (rd j) \<and> packet_type (snd (rd j)) \<noteq> IF_PACKET_TYPE"
          using step by blast
        with a c Inl p show ?thesis by simp
      next
        case (Inr p)
        obtain m hs where p: "p = (m, hs)" by (cases p)
        from later Inr p have a: "Suc k < m"
          and b: "\<forall>j. Suc k \<le> j \<and> j < m - 1 \<longrightarrow>
                  0 \<le> fst (rd j) \<and> packet_type (snd (rd j)) \<noteq> IF_PACKET_TYPE"
          and c: "0 \<le> fst (rd (m - 1)) \<and> packet_type (snd (rd (m - 1))) = IF_PACKET_TYPE"
          by simp_all
        from b have "\<forall>j. k \<le> j \<and> j < m - 1 \<longrightarrow>
            0 \<le> fst (rd j) \<and> packet_type (snd (rd j)) \<noteq> IF_PACKET_TYPE"
          using step by blast
        with a c Inr p show ?thesis by simp
      qed
    qed
  qed
qed

section \<open>Facts about the tail of \<^verbatim>\<open>main\<close>\<close>

lemma print_results_unwritten:
  "unat pk \<le> n \<Longrightarrow>
    print_results f_start pk (replicate n None) (replicate n (None :: 'a cell))
      = Inr (replicate (unat pk) (None, None))"
proof -
  assume le: "unat pk \<le> n"
  have "map (\<lambda>i. (replicate n (None :: 'a cell) ! i,
            map_option (\<lambda>f. f + f_start) (replicate n None ! i))) [0..<unat pk]
      = map (\<lambda>i. (None, None)) [0..<unat pk]"
    using le by (intro map_cong refl) simp
  also have "\<dots> = replicate (unat pk) (None, None)"
    by (simp add: map_replicate_const)
  finally show ?thesis
    using le by (simp add: print_results_def)
qed

lemma print_results_overrun:
  "n < unat pk \<Longrightarrow>
    print_results f_start pk (replicate n None) (replicate n None) = Inl Out_of_bounds"
  by (simp add: print_results_def)

lemma main_sweep_Inr:
  assumes run: "main_sweep shn cfg_mem buf_mem dev psbuf f_start f_stop r_bw pk mode = Some (Inr out)"
  shows "\<exists>result pscfg c.
      wsa_power_spectrum_alloc cfg_mem buf_mem f_start f_stop (ucast r_bw) mode
        = Inr (result, Some pscfg)
      \<and> wsa_capture_power_spectrum shn dev pscfg psbuf = Some c
      \<and> r_bw \<noteq> 0 \<and> unat pk \<le> MAXPEAKS
      \<and> out = \<lparr>capture = c, hzperbin_passed = ucast ((f_stop - f_start) div r_bw),
                peakfind_returned = 0, printed = replicate (unat pk) (None, None)\<rparr>"
proof (cases "wsa_power_spectrum_alloc cfg_mem buf_mem f_start f_stop (ucast r_bw) mode
    :: fault + int \<times> 'a wsa_power_spectrum_config option")
  case (Inl f)
  with run show ?thesis
    by (simp add: main_sweep_def)
next
  case (Inr p)
  obtain result q where p: "p = (result, q)"
    by (cases p)
  show ?thesis
  proof (cases q)
    case None
    with run Inr p show ?thesis
      by (simp add: main_sweep_def)
  next
    case (Some pscfg)
    with Inr p have alloc:
      "wsa_power_spectrum_alloc cfg_mem buf_mem f_start f_stop (ucast r_bw) mode
        = Inr (result, Some pscfg)"
      by simp
    show ?thesis
    proof (cases "wsa_capture_power_spectrum shn dev pscfg psbuf")
      case None
      with run alloc show ?thesis
        by (simp add: main_sweep_def)
    next
      case cap: (Some c)
      have nz: "r_bw \<noteq> 0"
      proof
        assume "r_bw = 0"
        with run alloc cap show False
          by (simp add: main_sweep_def)
      qed
      have pf: "peakfind (buf (cfg_after c)) (buflen (cfg_after c))
          (ucast ((f_stop - f_start) div r_bw)) (sint pk)
          (replicate MAXPEAKS None) (replicate MAXPEAKS (None :: 'a cell))
          = (0, replicate MAXPEAKS None, replicate MAXPEAKS None)"
        by (simp add: peakfind_def peakfind_loop_id)
      have le: "unat pk \<le> MAXPEAKS"
      proof (rule ccontr)
        assume "\<not> unat pk \<le> MAXPEAKS"
        then have "print_results f_start pk (replicate MAXPEAKS None)
            (replicate MAXPEAKS (None :: 'a cell)) = Inl Out_of_bounds"
          by (simp add: print_results_overrun)
        with run alloc cap nz pf show False
          by (simp add: main_sweep_def Let_def)
      qed
      then have "print_results f_start pk (replicate MAXPEAKS None)
            (replicate MAXPEAKS (None :: 'a cell)) = Inr (replicate (unat pk) (None, None))"
        by (rule print_results_unwritten)
      with run alloc cap nz pf
      have "out = \<lparr>capture = c, hzperbin_passed = ucast ((f_stop - f_start) div r_bw),
                    peakfind_returned = 0, printed = replicate (unat pk) (None, None)\<rparr>"
        by (simp add: main_sweep_def Let_def)
      with alloc cap nz le show ?thesis
        by blast
    qed
  qed
qed

lemma main_sweep_run:
  assumes "wsa_power_spectrum_alloc cfg_mem buf_mem f_start f_stop (ucast r_bw) mode
        = Inr (result, Some pscfg)"
    and "wsa_capture_power_spectrum shn dev pscfg psbuf = Some c"
    and "r_bw \<noteq> 0" and "unat pk \<le> MAXPEAKS"
  shows "main_sweep shn cfg_mem buf_mem dev psbuf f_start f_stop r_bw pk mode
    = Some (Inr \<lparr>capture = c, hzperbin_passed = ucast ((f_stop - f_start) div r_bw),
                peakfind_returned = 0, printed = replicate (unat pk) (None, None)\<rparr>)"
  using assms
  by (simp add: main_sweep_def Let_def peakfind_def peakfind_loop_id print_results_unwritten)

section \<open>Facts about the capture\<close>

lemma setup_ops_count:
  "length (filter (\<lambda>x. x = Wsa_capture_block)
      ([Wsa_flush_data, Wsa_set_rfe_input_mode shn, Wsa_set_samples_per_packet 1024,
        Wsa_set_packets_per_block 1, Wsa_capture_block]
       @ replicate k (Wsa_read_vrt_packet 1024 5000))) = 1"
  by (induction k) simp_all

lemma capture_cases:
  assumes "wsa_capture_power_spectrum shn dev cfg bufp = Some out"
  shows "\<exists>k. ops out = [Wsa_flush_data, Wsa_set_rfe_input_mode shn,
        Wsa_set_samples_per_packet 1024, Wsa_set_packets_per_block 1, Wsa_capture_block]
        @ replicate k (Wsa_read_vrt_packet 1024 5000)
      \<and> (capture_block_result dev < 0 \<longrightarrow> k = 0)
      \<and> (status out = 0 \<or> status out = - 1)
      \<and> (status out = 0 \<longrightarrow> dumped out \<noteq> [] \<and> packet_type (last (dumped out)) = IF_PACKET_TYPE)
      \<and> cfg_after out = cfg
      \<and> buf_ptr out = (if bufp \<noteq> None then Some (buf cfg) else None)"
proof (cases "capture_block_result dev < 0")
  case True
  with assms have "out = \<lparr>status = - 1,
      ops = [Wsa_flush_data, Wsa_set_rfe_input_mode shn,
        Wsa_set_samples_per_packet 1024, Wsa_set_packets_per_block 1, Wsa_capture_block],
      dumped = [], cfg_after = cfg,
      buf_ptr = (if bufp \<noteq> None then Some (buf cfg) else bufp)\<rparr>"
    by (simp add: wsa_capture_power_spectrum_def Let_def)
  with True show ?thesis
    by (intro exI [of _ 0]) auto
next
  case False
  show ?thesis
  proof (cases "read_loop (read_vrt_packet_result dev) 0 []")
    case None
    with assms False show ?thesis
      by (simp add: wsa_capture_power_spectrum_def Let_def)
  next
    case (Some r)
    show ?thesis
    proof (cases r)
      case (Inl p)
      obtain k seen where p: "p = (k, seen)" by (cases p)
      with assms False Some Inl have "out = \<lparr>status = - 1,
          ops = [Wsa_flush_data, Wsa_set_rfe_input_mode shn,
            Wsa_set_samples_per_packet 1024, Wsa_set_packets_per_block 1, Wsa_capture_block]
            @ replicate k (Wsa_read_vrt_packet 1024 5000),
          dumped = seen, cfg_after = cfg,
          buf_ptr = (if bufp \<noteq> None then Some (buf cfg) else bufp)\<rparr>"
        by (simp add: wsa_capture_power_spectrum_def Let_def)
      with False show ?thesis
        by (intro exI [of _ k]) auto
    next
      case (Inr p)
      obtain k seen where p: "p = (k, seen)" by (cases p)
      from read_loop_break [OF Some] Inr p
      have seen: "seen \<noteq> [] \<and> packet_type (last seen) = IF_PACKET_TYPE"
        by simp
      from assms False Some Inr p have "out = \<lparr>status = 0,
          ops = [Wsa_flush_data, Wsa_set_rfe_input_mode shn,
            Wsa_set_samples_per_packet 1024, Wsa_set_packets_per_block 1, Wsa_capture_block]
            @ replicate k (Wsa_read_vrt_packet 1024 5000),
          dumped = seen, cfg_after = cfg,
          buf_ptr = (if bufp \<noteq> None then Some (buf cfg) else bufp)\<rparr>"
        by (simp add: wsa_capture_power_spectrum_def Let_def)
      with False seen show ?thesis
        by (intro exI [of _ k]) auto
    qed
  qed
qed

lemma capture_reaches_if:
  assumes ok: "0 \<le> capture_block_result dev"
    and skip: "\<forall>j<n. 0 \<le> fst (read_vrt_packet_result dev j)
          \<and> packet_type (snd (read_vrt_packet_result dev j)) \<noteq> IF_PACKET_TYPE"
    and last_ok: "0 \<le> fst (read_vrt_packet_result dev n)"
    and last_if: "packet_type (snd (read_vrt_packet_result dev n)) = IF_PACKET_TYPE"
  shows "wsa_capture_power_spectrum shn dev cfg bufp =
    Some \<lparr>status = 0,
      ops = [Wsa_flush_data, Wsa_set_rfe_input_mode shn, Wsa_set_samples_per_packet 1024,
             Wsa_set_packets_per_block 1, Wsa_capture_block]
            @ replicate (Suc n) (Wsa_read_vrt_packet 1024 5000),
      dumped = map (\<lambda>j. snd (read_vrt_packet_result dev j)) [0..<Suc n],
      cfg_after = cfg,
      buf_ptr = (if bufp \<noteq> None then Some (buf cfg) else None)\<rparr>"
proof -
  let ?rd = "read_vrt_packet_result dev"
  have "read_loop ?rd 0 [] = read_loop ?rd (0 + n) ([] @ map (\<lambda>j. snd (?rd j)) [0..<0 + n])"
    using skip by (intro read_loop_skip) simp
  also have "\<dots> = Some (Inr (Suc n, map (\<lambda>j. snd (?rd j)) [0..<n] @ [snd (?rd n)]))"
    using last_ok last_if by (simp add: read_loop_if)
  finally have "read_loop ?rd 0 [] = Some (Inr (Suc n, map (\<lambda>j. snd (?rd j)) [0..<Suc n]))"
    by simp
  with ok show ?thesis
    by (simp add: wsa_capture_power_spectrum_def Let_def del: upt_Suc replicate.simps)
qed

lemma capture_read_fails:
  assumes ok: "0 \<le> capture_block_result dev"
    and skip: "\<forall>j<n. 0 \<le> fst (read_vrt_packet_result dev j)
          \<and> packet_type (snd (read_vrt_packet_result dev j)) \<noteq> IF_PACKET_TYPE"
    and fail: "fst (read_vrt_packet_result dev n) < 0"
  shows "wsa_capture_power_spectrum shn dev cfg bufp =
    Some \<lparr>status = - 1,
      ops = [Wsa_flush_data, Wsa_set_rfe_input_mode shn, Wsa_set_samples_per_packet 1024,
             Wsa_set_packets_per_block 1, Wsa_capture_block]
            @ replicate (Suc n) (Wsa_read_vrt_packet 1024 5000),
      dumped = map (\<lambda>j. snd (read_vrt_packet_result dev j)) [0..<n],
      cfg_after = cfg,
      buf_ptr = (if bufp \<noteq> None then Some (buf cfg) else None)\<rparr>"
proof -
  let ?rd = "read_vrt_packet_result dev"
  have "read_loop ?rd 0 [] = read_loop ?rd (0 + n) ([] @ map (\<lambda>j. snd (?rd j)) [0..<0 + n])"
    using skip by (intro read_loop_skip) simp
  also have "\<dots> = Some (Inl (Suc n, map (\<lambda>j. snd (?rd j)) [0..<n]))"
    using fail by (simp add: read_loop_fail)
  finally have "read_loop ?rd 0 [] = Some (Inl (Suc n, map (\<lambda>j. snd (?rd j)) [0..<n]))" .
  with ok show ?thesis
    by (simp add: wsa_capture_power_spectrum_def Let_def del: upt_Suc replicate.simps)
qed

lemma capture_trigger_fails:
  assumes "capture_block_result dev < 0"
  shows "wsa_capture_power_spectrum shn dev cfg bufp =
    Some \<lparr>status = - 1,
      ops = [Wsa_flush_data, Wsa_set_rfe_input_mode shn, Wsa_set_samples_per_packet 1024,
             Wsa_set_packets_per_block 1, Wsa_capture_block],
      dumped = [], cfg_after = cfg,
      buf_ptr = (if bufp \<noteq> None then Some (buf cfg) else None)\<rparr>"
  using assms by (simp add: wsa_capture_power_spectrum_def Let_def)

lemma capture_reads:
  assumes run: "wsa_capture_power_spectrum shn dev cfg bufp = Some out"
    and ok: "0 \<le> capture_block_result dev"
  shows "\<exists>k. ops out = [Wsa_flush_data, Wsa_set_rfe_input_mode shn,
        Wsa_set_samples_per_packet 1024, Wsa_set_packets_per_block 1, Wsa_capture_block]
        @ replicate (Suc k) (Wsa_read_vrt_packet 1024 5000)
      \<and> (\<forall>j<k. 0 \<le> fst (read_vrt_packet_result dev j)
            \<and> packet_type (snd (read_vrt_packet_result dev j)) \<noteq> IF_PACKET_TYPE)
      \<and> (fst (read_vrt_packet_result dev k) < 0 \<and> status out = - 1
          \<or> 0 \<le> fst (read_vrt_packet_result dev k)
            \<and> packet_type (snd (read_vrt_packet_result dev k)) = IF_PACKET_TYPE
            \<and> status out = 0)"
proof (cases "read_loop (read_vrt_packet_result dev) 0 []")
  case None
  with run ok show ?thesis
    by (simp add: wsa_capture_power_spectrum_def Let_def)
next
  case (Some r)
  show ?thesis
  proof (cases r)
    case (Inl p)
    obtain m seen where p: "p = (m, seen)" by (cases p)
    from read_loop_stops [OF Some] Inl p
    have m: "0 < m"
      and skipped: "\<forall>j. j < m - 1 \<longrightarrow> 0 \<le> fst (read_vrt_packet_result dev j)
            \<and> packet_type (snd (read_vrt_packet_result dev j)) \<noteq> IF_PACKET_TYPE"
      and stop: "fst (read_vrt_packet_result dev (m - 1)) < 0"
      by simp_all
    from m obtain k where k: "m = Suc k"
      by (cases m) simp_all
    from run ok Some Inl p k
    have "ops out = [Wsa_flush_data, Wsa_set_rfe_input_mode shn,
        Wsa_set_samples_per_packet 1024, Wsa_set_packets_per_block 1, Wsa_capture_block]
        @ replicate (Suc k) (Wsa_read_vrt_packet 1024 5000)"
      and "status out = - 1"
      by (auto simp: wsa_capture_power_spectrum_def Let_def)
    with skipped stop k show ?thesis
      by (intro exI [of _ k]) simp
  next
    case (Inr p)
    obtain m seen where p: "p = (m, seen)" by (cases p)
    from read_loop_stops [OF Some] Inr p
    have m: "0 < m"
      and skipped: "\<forall>j. j < m - 1 \<longrightarrow> 0 \<le> fst (read_vrt_packet_result dev j)
            \<and> packet_type (snd (read_vrt_packet_result dev j)) \<noteq> IF_PACKET_TYPE"
      and stop: "0 \<le> fst (read_vrt_packet_result dev (m - 1))
            \<and> packet_type (snd (read_vrt_packet_result dev (m - 1))) = IF_PACKET_TYPE"
      by simp_all
    from m obtain k where k: "m = Suc k"
      by (cases m) simp_all
    from run ok Some Inr p k
    have "ops out = [Wsa_flush_data, Wsa_set_rfe_input_mode shn,
        Wsa_set_samples_per_packet 1024, Wsa_set_packets_per_block 1, Wsa_capture_block]
        @ replicate (Suc k) (Wsa_read_vrt_packet 1024 5000)"
      and "status out = 0"
      by (auto simp: wsa_capture_power_spectrum_def Let_def)
    with skipped stop k show ?thesis
      by (intro exI [of _ k]) simp
  qed
qed

lemma capture_noisy_device:
  "wsa_capture_power_spectrum ''SHN'' noisy_device small_cfg None = Some noisy_capture"
proof -
  have a: "0 \<le> capture_block_result noisy_device"
    by (simp add: noisy_device_def)
  have b: "\<forall>j<2. 0 \<le> fst (read_vrt_packet_result noisy_device j)
          \<and> packet_type (snd (read_vrt_packet_result noisy_device j)) \<noteq> IF_PACKET_TYPE"
    by (simp add: noisy_device_def header_of_def)
  have c: "0 \<le> fst (read_vrt_packet_result noisy_device 2)"
    by (simp add: noisy_device_def)
  have d: "packet_type (snd (read_vrt_packet_result noisy_device 2)) = IF_PACKET_TYPE"
    by (simp add: noisy_device_def header_of_def)
  have e: "[0..<Suc 2] = [0, 1, 2]"
    by (simp add: upt_rec)
  have f: "replicate (Suc 2) (Wsa_read_vrt_packet 1024 5000)
      = [Wsa_read_vrt_packet 1024 5000, Wsa_read_vrt_packet 1024 5000,
         Wsa_read_vrt_packet 1024 5000]"
    by (simp add: numeral_2_eq_2)
  from capture_reaches_if [OF a b c d, of "''SHN''" small_cfg None]
  show ?thesis
    unfolding e f by (simp add: noisy_device_def noisy_capture_def)
qed

section \<open>Facts about the allocation\<close>

lemma unat_ucast_up_32_64: "unat (ucast (x :: 32 word) :: 64 word) = unat x"
proof -
  have "unat x < 2 ^ 32"
    using unsigned_less [of x] by simp
  also have "(2 :: nat) ^ 32 < 2 ^ 64"
    by simp
  finally show ?thesis
    by (simp add: unsigned_ucast_eq take_bit_nat_eq_self)
qed

lemma unat_ucast_down_64_32: "unat (ucast (x :: 64 word) :: 32 word) = unat x mod 2 ^ 32"
  by (simp add: unsigned_ucast_eq take_bit_eq_mod)

lemma alloc_succeeds:
  "r_bw \<noteq> 0 \<Longrightarrow>
    wsa_power_spectrum_alloc True True f_start f_stop r_bw mode
      = Inr (0, Some \<lparr>fstart = f_start, fstop = f_stop, rbw = r_bw,
          buflen = ucast ((f_stop - f_start) div ucast r_bw),
          buf = replicate (unat (ucast ((f_stop - f_start) div ucast r_bw) :: 32 word)) None\<rparr>)"
  by (simp add: wsa_power_spectrum_alloc_def Let_def)

lemma alloc_zero_rbw:
  "wsa_power_spectrum_alloc True buf_mem f_start f_stop 0 mode = Inl Division_by_zero"
  by (simp add: wsa_power_spectrum_alloc_def)

lemma unat_buflen_quotient:
  fixes f_start f_stop :: "64 word" and r_bw :: "32 word"
  assumes "f_start \<le> f_stop"
    and "(unat f_stop - unat f_start) div unat r_bw < 2 ^ 32"
  shows "unat (ucast ((f_stop - f_start) div ucast r_bw) :: 32 word)
    = (unat f_stop - unat f_start) div unat r_bw"
proof -
  have "unat ((f_stop - f_start) div ucast r_bw) = (unat f_stop - unat f_start) div unat r_bw"
    using assms(1) by (simp add: unat_div unat_sub unat_ucast_up_32_64)
  with assms(2) show ?thesis
    by (simp add: unat_ucast_down_64_32)
qed

lemma alloc_small_cfg:
  "wsa_power_spectrum_alloc True True 0 4 1 ''SH'' = Inr (0, Some small_cfg)"
  by (simp add: wsa_power_spectrum_alloc_def small_cfg_def)

lemma alloc_default_cfg:
  "wsa_power_spectrum_alloc True True 2000000000 3000000000 100000 ''SH''
    = Inr (0, Some default_cfg)"
  by (simp add: wsa_power_spectrum_alloc_def default_cfg_def)

lemma alloc_empty_cfg:
  "wsa_power_spectrum_alloc True True 5 5 1 ''SH'' = Inr (0, Some empty_cfg)"
  by (simp add: wsa_power_spectrum_alloc_def empty_cfg_def)

lemma capture_if_device:
  "wsa_capture_power_spectrum ''SHN'' if_device cfg None = Some (if_capture cfg)"
  using capture_reaches_if [of if_device 0 "''SHN''" cfg None]
  by (simp add: if_device_def header_of_def if_capture_def)

lemma main_small_run:
  "main_sweep ''SHN'' True True if_device None 0 4 1 1 ''SH'' = Some (Inr small_run)"
proof -
  have "wsa_power_spectrum_alloc True True 0 4 (ucast (1 :: 64 word)) ''SH''
      = Inr (0, Some small_cfg)"
    using alloc_small_cfg by simp
  from main_sweep_run [OF this capture_if_device, where pk = 1]
  show ?thesis
    by (simp add: MAXPEAKS_def small_run_def)
qed

section \<open>The peak finder\<close>

text \<open>
  C10. For every input \<^verbatim>\<open>(buf, buflen, hzperbin, peaks, pfreq, pamp)\<close>, \<^verbatim>\<open>peakfind\<close>
  returns 0 and leaves the output arrays \<^verbatim>\<open>pfreq\<close> and \<^verbatim>\<open>pamp\<close> as they were.
  Consequently, whenever the tail of \<^verbatim>\<open>main\<close> gets as far as printing, every peak value
  it prints is a cell that nothing has written: \<^verbatim>\<open>main\<close> hands \<^verbatim>\<open>peakfind\<close> two
  uninitialised arrays and prints their first \<^verbatim>\<open>peaks\<close> entries.
\<close>

theorem peakfind_writes_nothing:
  "peakfind b n hzperbin peaks pfreq pamp = (0, pfreq, pamp)
   \<and> (\<forall>out. main_sweep shn cfg_mem buf_mem dev psbuf f_start f_stop r_bw pk mode = Some (Inr out)
        \<longrightarrow> peakfind_returned out = 0 \<and> printed out = replicate (unat pk) (None, None))"
proof
  show "peakfind b n hzperbin peaks pfreq pamp = (0, pfreq, pamp)"
    by (simp add: peakfind_def peakfind_loop_id)
  show "\<forall>out. main_sweep shn cfg_mem buf_mem dev psbuf f_start f_stop r_bw pk mode = Some (Inr out)
        \<longrightarrow> peakfind_returned out = 0 \<and> printed out = replicate (unat pk) (None, None)"
  proof (intro allI impI)
    fix out
    assume "main_sweep shn cfg_mem buf_mem dev psbuf f_start f_stop r_bw pk mode = Some (Inr out)"
    from main_sweep_Inr [OF this]
    show "peakfind_returned out = 0 \<and> printed out = replicate (unat pk) (None, None)"
      by auto
  qed
qed

theorem peakfind_writes_nothing_witness:
  "peakfind (map Some [- 40, - 20, - 40 :: real]) 3 100000 1 [Some 0] [Some (- 40)]
     = (0, [Some 0], [Some (- 40)])
   \<and> main_sweep ''SHN'' True True if_device None 0 4 1 1 ''SH'' = Some (Inr small_run)
   \<and> peakfind_returned small_run = 0
   \<and> printed small_run = replicate (unat (1 :: 32 word)) (None, None)"
  using peakfind_writes_nothing
    [where b = "map Some [- 40, - 20, - 40 :: real]" and n = 3 and hzperbin = 100000
       and peaks = 1 and pfreq = "[Some 0]" and pamp = "[Some (- 40)]"
       and shn = "''SHN''" and cfg_mem = True and buf_mem = True and dev = if_device
       and psbuf = "None :: real cell list option" and f_start = 0 and f_stop = 4
       and r_bw = 1 and pk = 1
       and mode = "''SH''"]
    main_small_run
  by simp

text \<open>
  C9. For every spectrum buffer, calling the peak finder with \<^verbatim>\<open>peaks = 0\<close> succeeds
  (it returns 0) and the sequence of peaks read back from its output arrays is empty.
\<close>

theorem peakfind_zero_peaks:
  "case peakfind b n hzperbin 0 pfreq pamp of
     (r, pfreq', pamp') \<Rightarrow> r = 0 \<and> print_results f_start 0 pfreq' pamp' = Inr []"
  by (simp add: peakfind_def peakfind_loop_id print_results_def)

theorem peakfind_zero_peaks_witness:
  "case peakfind (map Some [- 40, - 20, - 40 :: real]) 3 100000 0 [Some 0] [Some (- 40)] of
     (r, pfreq', pamp') \<Rightarrow> r = 0 \<and> print_results 2000000000 0 pfreq' pamp' = Inr []"
  by (rule peakfind_zero_peaks)

text \<open>
  C1, as the spec states it, fails on the code. With the spectrum \<open>[-40, -20, -40]\<close>, one
  peak asked for and output arrays that hold the entry (offset 0, amplitude -40) on entry,
  the sequence read back after the call is that entry, labelled with the frequency of
  bin 0: a bin that is smaller than its neighbour, so not a peak the spec allows.
\<close>

theorem peakfind_local_maxima_counterexample:
  "print_results 2000000000 1
      (fst (snd (peakfind (map Some [- 40, - 20, - 40 :: real]) 3 100000 1 [Some 0] [Some (- 40)])))
      (snd (snd (peakfind (map Some [- 40, - 20, - 40 :: real]) 3 100000 1 [Some 0] [Some (- 40)])))
     = Inr [(Some (- 40), Some 2000000000)]
   \<and> \<not> spec_peaks [- 40, - 20, - 40 :: real] 100000 2000000000 1
         [(Some (- 40), Some 2000000000)]"
  by (simp add: peakfind_def peakfind_loop_id print_results_def spec_peaks_def local_maximum_def)

text \<open>
  C1, as amended. For every spectrum buffer and every \<^verbatim>\<open>peaks\<close>, the peak finder
  returns 0 and stores no peak: the sequence read back from its output arrays is made of
  the entries the caller passed in, and when it can be read at all it has exactly
  \<^verbatim>\<open>peaks\<close> entries, so never more than \<^verbatim>\<open>peaks\<close>. Nothing relates these entries to the
  local maxima of the buffer or orders them.
\<close>

theorem peakfind_reports_caller_entries:
  "case peakfind b n hzperbin (sint pk) pfreq pamp of
     (r, pfreq', pamp') \<Rightarrow>
       r = 0
       \<and> print_results f_start pk pfreq' pamp' = print_results f_start pk pfreq pamp
       \<and> (\<forall>ps. print_results f_start pk pfreq' pamp' = Inr ps \<longrightarrow> length ps = unat pk)"
  by (auto simp: peakfind_def peakfind_loop_id print_results_def split: if_splits)

theorem peakfind_reports_caller_entries_witness:
  "print_results 2000000000 1 [Some 0] [Some (- 40 :: real)]
     = Inr [(Some (- 40), Some 2000000000)]
   \<and> length [(Some (- 40 :: real), Some (2000000000 :: 64 word))] = unat (1 :: 32 word)"
  using peakfind_reports_caller_entries
    [where b = "map Some [- 40, - 20, - 40 :: real]" and n = 3 and hzperbin = 100000
       and pk = 1 and pfreq = "[Some 0]" and pamp = "[Some (- 40)]" and f_start = 2000000000]
  by (simp add: peakfind_def peakfind_loop_id print_results_def)

section \<open>The sweep\<close>

text \<open>
  C2, as the spec states it, fails on the code. The plan 0 to 4 Hz with 1 Hz bins is
  allocated, the device accepts the trigger and answers the first read with an IF packet:
  the sweep call returns 0, and bin 0 of the buffer (like every other bin) is still a cell
  that nothing has written.
\<close>

theorem sweep_populates_buffer_counterexample:
  "wsa_power_spectrum_alloc True True 0 4 1 ''SH'' = Inr (0, Some small_cfg)
   \<and> wsa_capture_power_spectrum ''SHN'' if_device small_cfg None = Some (if_capture small_cfg)
   \<and> status (if_capture small_cfg) = 0
   \<and> buf (cfg_after (if_capture small_cfg)) ! 0 = None"
  using alloc_small_cfg capture_if_device [of small_cfg]
  by (simp add: if_capture_def small_cfg_def)

text \<open>
  C2, as amended. When the sweep call returns successfully on a freshly allocated
  configuration, an IF packet has been read (it is the last header dumped), but no bin of
  the buffer has been written: the buffer still consists of \<^verbatim>\<open>buflen\<close> unwritten cells,
  as the allocation left it.
\<close>

theorem sweep_success_leaves_bins_unwritten:
  assumes alloc: "wsa_power_spectrum_alloc cfg_mem buf_mem f_start f_stop r_bw mode
      = Inr (result, Some cfg)"
    and run: "wsa_capture_power_spectrum shn dev cfg bufp = Some out"
    and ok: "status out = 0"
  shows "dumped out \<noteq> [] \<and> packet_type (last (dumped out)) = IF_PACKET_TYPE
    \<and> buf (cfg_after out) = replicate (unat (buflen cfg)) None"
proof -
  from alloc have "buf cfg = replicate (unat (buflen cfg)) None"
    by (auto simp: wsa_power_spectrum_alloc_def Let_def split: if_splits)
  with capture_cases [OF run] ok show ?thesis
    by auto
qed

theorem sweep_success_leaves_bins_unwritten_witness:
  "wsa_power_spectrum_alloc True True 0 4 1 ''SH'' = Inr (0, Some small_cfg)
   \<and> wsa_capture_power_spectrum ''SHN'' if_device small_cfg None = Some (if_capture small_cfg)
   \<and> status (if_capture small_cfg) = 0
   \<and> dumped (if_capture small_cfg) \<noteq> []
   \<and> packet_type (last (dumped (if_capture small_cfg))) = IF_PACKET_TYPE
   \<and> buf (cfg_after (if_capture small_cfg)) = replicate (unat (buflen small_cfg)) None"
proof -
  have ok: "status (if_capture small_cfg) = 0"
    by (simp add: if_capture_def)
  from sweep_success_leaves_bins_unwritten [OF alloc_small_cfg capture_if_device ok]
    alloc_small_cfg capture_if_device [of small_cfg] ok
  show ?thesis
    by simp
qed

text \<open>
  C3, as the spec states it, fails on the code. For the driver's default plan (2 GHz to
  3 GHz, 100 kHz bins, so 10000 bins) the spec's step count is 20; the sweep triggers one
  capture.
\<close>

theorem sweep_step_count_counterexample:
  "wsa_power_spectrum_alloc True True 2000000000 3000000000 100000 ''SH''
     = Inr (0, Some default_cfg)
   \<and> wsa_capture_power_spectrum ''SHN'' if_device default_cfg None
     = Some (if_capture default_cfg)
   \<and> captures_issued (if_capture default_cfg) = 1
   \<and> spec_step_count default_cfg = 20"
  using alloc_default_cfg capture_if_device [of default_cfg]
  by (simp add: captures_issued_def if_capture_def spec_step_count_def bins_per_capture_def
      default_cfg_def)

text \<open>
  C3, as amended. For every plan, a sweep call that returns has triggered exactly one
  capture, whatever the number of bins; this is the spec's
  \<open>ceil(bin_count / bins_per_capture)\<close> exactly when \<open>1 \<le> bin_count \<le> bins_per_capture\<close>.
  (The code sets no tuning frequency, so there is no order of tunings.)
\<close>

theorem sweep_issues_one_capture:
  assumes run: "wsa_capture_power_spectrum shn dev cfg bufp = Some out"
  shows "captures_issued out = 1
    \<and> (captures_issued out = spec_step_count cfg
         \<longleftrightarrow> 0 < unat (buflen cfg) \<and> unat (buflen cfg) \<le> bins_per_capture)"
proof -
  from capture_cases [OF run] obtain k where
    "ops out = [Wsa_flush_data, Wsa_set_rfe_input_mode shn,
        Wsa_set_samples_per_packet 1024, Wsa_set_packets_per_block 1, Wsa_capture_block]
        @ replicate k (Wsa_read_vrt_packet 1024 5000)"
    by blast
  then have one: "captures_issued out = 1"
    by (simp only: captures_issued_def setup_ops_count)
  have "1 = (unat (buflen cfg) + 512 - 1) div 512
      \<longleftrightarrow> 0 < unat (buflen cfg) \<and> unat (buflen cfg) \<le> 512"
    by arith
  then have "1 = spec_step_count cfg
      \<longleftrightarrow> 0 < unat (buflen cfg) \<and> unat (buflen cfg) \<le> bins_per_capture"
    by (simp only: spec_step_count_def bins_per_capture_def) simp
  with one show ?thesis
    by simp
qed

theorem sweep_issues_one_capture_witness:
  "wsa_capture_power_spectrum ''SHN'' if_device small_cfg None = Some (if_capture small_cfg)
   \<and> captures_issued (if_capture small_cfg) = 1
   \<and> spec_step_count small_cfg = 1"
  using sweep_issues_one_capture [OF capture_if_device [of small_cfg]]
    capture_if_device [of small_cfg]
  by (simp add: small_cfg_def bins_per_capture_def)

text \<open>
  C7, as the spec states it, fails on the code. The spec lets the packet reader fail with
  \<open>UnknownStreamId\<close> on a stream id that matches no constant, and wants the capture to go
  on. On \<open>rejecting_reader_device\<close> the first read fails in this way, with the code -1, on
  a context packet with an unknown stream id, and an IF packet would come next. The loop
  returns -1 after that one read; the IF packet is never read.
\<close>

theorem unknown_stream_id_counterexample:
  "fst (read_vrt_packet_result rejecting_reader_device 0) = - 1
   \<and> stream_id (snd (read_vrt_packet_result rejecting_reader_device 0))
       = UNKNOWN_STREAM_ID 3735928559
   \<and> packet_type (snd (read_vrt_packet_result rejecting_reader_device 0)) = CONTEXT_PACKET_TYPE
   \<and> read_vrt_packet_result rejecting_reader_device 1
       = (0, header_of I16Q16_DATA_STREAM_ID IF_PACKET_TYPE)
   \<and> wsa_capture_power_spectrum ''SHN'' rejecting_reader_device small_cfg None
     = Some \<lparr>status = - 1,
         ops = [Wsa_flush_data, Wsa_set_rfe_input_mode ''SHN'', Wsa_set_samples_per_packet 1024,
                Wsa_set_packets_per_block 1, Wsa_capture_block,
                Wsa_read_vrt_packet 1024 5000],
         dumped = [], cfg_after = small_cfg, buf_ptr = None\<rparr>"
proof -
  have a: "0 \<le> capture_block_result rejecting_reader_device"
    by (simp add: rejecting_reader_device_def)
  have b: "\<forall>j<0. 0 \<le> fst (read_vrt_packet_result rejecting_reader_device j)
      \<and> packet_type (snd (read_vrt_packet_result rejecting_reader_device j)) \<noteq> IF_PACKET_TYPE"
    by simp
  have c: "fst (read_vrt_packet_result rejecting_reader_device 0) < 0"
    by (simp add: rejecting_reader_device_def)
  from capture_read_fails [OF a b c, of "''SHN''" small_cfg None]
  show ?thesis
    by (simp add: rejecting_reader_device_def header_of_def)
qed

text \<open>
  C7, as amended. Let the device accept the trigger. For every sequence of reads in which
  the first \<open>n\<close> reads succeed (their result code is not negative) with packets that are
  not IF packets (context packets, extension packets, packets of any stream id, recognised
  or not) and read \<open>n\<close> succeeds with an IF packet, the read loop skips the \<open>n\<close> packets
  and ends at the IF packet: the call makes \<open>n + 1\<close> reads, dumps the \<open>n + 1\<close> headers,
  the last being the IF packet's, and returns the integer 0. The IF packet itself is not
  handed to the caller. The loop looks at the result code and the packet type only.
\<close>

theorem non_if_packets_are_skipped:
  assumes "0 \<le> capture_block_result dev"
    and "\<forall>j<n. 0 \<le> fst (read_vrt_packet_result dev j)
          \<and> packet_type (snd (read_vrt_packet_result dev j)) \<noteq> IF_PACKET_TYPE"
    and "0 \<le> fst (read_vrt_packet_result dev n)"
    and "packet_type (snd (read_vrt_packet_result dev n)) = IF_PACKET_TYPE"
  shows "wsa_capture_power_spectrum shn dev cfg bufp =
      Some \<lparr>status = 0,
        ops = [Wsa_flush_data, Wsa_set_rfe_input_mode shn, Wsa_set_samples_per_packet 1024,
               Wsa_set_packets_per_block 1, Wsa_capture_block]
              @ replicate (Suc n) (Wsa_read_vrt_packet 1024 5000),
        dumped = map (\<lambda>j. snd (read_vrt_packet_result dev j)) [0..<Suc n],
        cfg_after = cfg,
        buf_ptr = (if bufp \<noteq> None then Some (buf cfg) else None)\<rparr>
    \<and> last (map (\<lambda>j. snd (read_vrt_packet_result dev j)) [0..<Suc n])
        = snd (read_vrt_packet_result dev n)"
proof
  show "wsa_capture_power_spectrum shn dev cfg bufp =
      Some \<lparr>status = 0,
        ops = [Wsa_flush_data, Wsa_set_rfe_input_mode shn, Wsa_set_samples_per_packet 1024,
               Wsa_set_packets_per_block 1, Wsa_capture_block]
              @ replicate (Suc n) (Wsa_read_vrt_packet 1024 5000),
        dumped = map (\<lambda>j. snd (read_vrt_packet_result dev j)) [0..<Suc n],
        cfg_after = cfg,
        buf_ptr = (if bufp \<noteq> None then Some (buf cfg) else None)\<rparr>"
    using assms by (rule capture_reaches_if)
  show "last (map (\<lambda>j. snd (read_vrt_packet_result dev j)) [0..<Suc n])
        = snd (read_vrt_packet_result dev n)"
    by simp
qed

theorem non_if_packets_are_skipped_witness:
  "0 \<le> capture_block_result noisy_device
   \<and> 0 \<le> fst (read_vrt_packet_result noisy_device 0)
   \<and> packet_type (snd (read_vrt_packet_result noisy_device 0)) \<noteq> IF_PACKET_TYPE
   \<and> 0 \<le> fst (read_vrt_packet_result noisy_device 1)
   \<and> packet_type (snd (read_vrt_packet_result noisy_device 1)) \<noteq> IF_PACKET_TYPE
   \<and> stream_id (snd (read_vrt_packet_result noisy_device 1)) = UNKNOWN_STREAM_ID 3735928559
   \<and> 0 \<le> fst (read_vrt_packet_result noisy_device 2)
   \<and> packet_type (snd (read_vrt_packet_result noisy_device 2)) = IF_PACKET_TYPE
   \<and> wsa_capture_power_spectrum ''SHN'' noisy_device small_cfg None =
      Some \<lparr>status = 0,
        ops = [Wsa_flush_data, Wsa_set_rfe_input_mode ''SHN'', Wsa_set_samples_per_packet 1024,
               Wsa_set_packets_per_block 1, Wsa_capture_block,
               Wsa_read_vrt_packet 1024 5000, Wsa_read_vrt_packet 1024 5000,
               Wsa_read_vrt_packet 1024 5000],
        dumped = [header_of RECEIVER_STREAM_ID CONTEXT_PACKET_TYPE,
                  header_of (UNKNOWN_STREAM_ID 3735928559) CONTEXT_PACKET_TYPE,
                  header_of I16Q16_DATA_STREAM_ID IF_PACKET_TYPE],
        cfg_after = small_cfg, buf_ptr = None\<rparr>"
proof -
  have a: "0 \<le> capture_block_result noisy_device"
    by (simp add: noisy_device_def)
  have b: "\<forall>j<2. 0 \<le> fst (read_vrt_packet_result noisy_device j)
          \<and> packet_type (snd (read_vrt_packet_result noisy_device j)) \<noteq> IF_PACKET_TYPE"
    by (simp add: noisy_device_def header_of_def)
  have c: "0 \<le> fst (read_vrt_packet_result noisy_device 2)"
    by (simp add: noisy_device_def)
  have d: "packet_type (snd (read_vrt_packet_result noisy_device 2)) = IF_PACKET_TYPE"
    by (simp add: noisy_device_def header_of_def)
  have e: "[0..<Suc 2] = [0, 1, 2]"
    by (simp add: upt_rec)
  have f: "replicate (Suc 2) (Wsa_read_vrt_packet 1024 5000)
      = [Wsa_read_vrt_packet 1024 5000, Wsa_read_vrt_packet 1024 5000,
         Wsa_read_vrt_packet 1024 5000]"
    by (simp add: numeral_2_eq_2)
  from non_if_packets_are_skipped [OF a b c d, of "''SHN''" small_cfg None]
  have "wsa_capture_power_spectrum ''SHN'' noisy_device small_cfg None =
      Some \<lparr>status = 0,
        ops = [Wsa_flush_data, Wsa_set_rfe_input_mode ''SHN'', Wsa_set_samples_per_packet 1024,
               Wsa_set_packets_per_block 1, Wsa_capture_block]
              @ replicate (Suc 2) (Wsa_read_vrt_packet 1024 5000),
        dumped = map (\<lambda>j. snd (read_vrt_packet_result noisy_device j)) [0..<Suc 2],
        cfg_after = small_cfg, buf_ptr = None\<rparr>"
    by simp
  then have "wsa_capture_power_spectrum ''SHN'' noisy_device small_cfg None =
      Some \<lparr>status = 0,
        ops = [Wsa_flush_data, Wsa_set_rfe_input_mode ''SHN'', Wsa_set_samples_per_packet 1024,
               Wsa_set_packets_per_block 1, Wsa_capture_block,
               Wsa_read_vrt_packet 1024 5000, Wsa_read_vrt_packet 1024 5000,
               Wsa_read_vrt_packet 1024 5000],
        dumped = [header_of RECEIVER_STREAM_ID CONTEXT_PACKET_TYPE,
                  header_of (UNKNOWN_STREAM_ID 3735928559) CONTEXT_PACKET_TYPE,
                  header_of I16Q16_DATA_STREAM_ID IF_PACKET_TYPE],
        cfg_after = small_cfg, buf_ptr = None\<rparr>"
    unfolding e f by (simp add: noisy_device_def)
  moreover have "stream_id (snd (read_vrt_packet_result noisy_device 1))
      = UNKNOWN_STREAM_ID 3735928559"
    by (simp add: noisy_device_def header_of_def)
  moreover from b have "0 \<le> fst (read_vrt_packet_result noisy_device 0)
      \<and> packet_type (snd (read_vrt_packet_result noisy_device 0)) \<noteq> IF_PACKET_TYPE
      \<and> 0 \<le> fst (read_vrt_packet_result noisy_device 1)
      \<and> packet_type (snd (read_vrt_packet_result noisy_device 1)) \<noteq> IF_PACKET_TYPE"
    by simp
  ultimately show ?thesis
    using a c d by blast
qed

section \<open>The plan\<close>

text \<open>
  C4, as the spec states it, fails on the code. The plan from 0 Hz to 4294967296 Hz with
  1 Hz bins has \<open>fstop > fstart\<close> and \<open>rbw > 0\<close>, and \<open>(fstop - fstart) / rbw\<close> is
  4294967296; the quotient does not fit the 32-bit \<^verbatim>\<open>buflen\<close>, which becomes 0, and
  the buffer has no bin.
\<close>

theorem buflen_floor_counterexample:
  "(0 :: 64 word) < 4294967296 \<and> (1 :: 32 word) \<noteq> 0
   \<and> wsa_power_spectrum_alloc True True 0 4294967296 1 ''SH''
     = Inr (0, Some \<lparr>fstart = 0, fstop = 4294967296, rbw = 1, buflen = 0,
                       buf = ([] :: real cell list)\<rparr>)
   \<and> (unat (4294967296 :: 64 word) - unat (0 :: 64 word)) div unat (1 :: 32 word) = 4294967296"
  by (simp add: wsa_power_spectrum_alloc_def)

text \<open>
  C4, as amended. For every plan with \<open>fstop > fstart\<close>, \<open>rbw > 0\<close> and
  \<open>floor ((fstop - fstart) / rbw) < 2 ^ 32\<close>, an allocation that gets its memory returns 0
  and a configuration that records the plan, whose \<^verbatim>\<open>buflen\<close> and whose buffer length
  both equal \<open>floor ((fstop - fstart) / rbw)\<close>.
\<close>

theorem buflen_is_floor:
  assumes "f_start < f_stop" and "r_bw \<noteq> 0"
    and "(unat f_stop - unat f_start) div unat r_bw < 2 ^ 32"
  shows "\<exists>cfg. wsa_power_spectrum_alloc True True f_start f_stop r_bw mode = Inr (0, Some cfg)
    \<and> fstart cfg = f_start \<and> fstop cfg = f_stop \<and> rbw cfg = r_bw
    \<and> unat (buflen cfg) = (unat f_stop - unat f_start) div unat r_bw
    \<and> length (buf cfg) = (unat f_stop - unat f_start) div unat r_bw"
proof -
  let ?cfg = "\<lparr>fstart = f_start, fstop = f_stop, rbw = r_bw,
      buflen = ucast ((f_stop - f_start) div ucast r_bw),
      buf = replicate (unat (ucast ((f_stop - f_start) div ucast r_bw) :: 32 word))
        (None :: 'a cell)\<rparr>"
  from assms(1) have "f_start \<le> f_stop"
    by simp
  from unat_buflen_quotient [OF this assms(3)]
  have "unat (buflen ?cfg) = (unat f_stop - unat f_start) div unat r_bw"
    and "length (buf ?cfg) = (unat f_stop - unat f_start) div unat r_bw"
    by simp_all
  moreover have "wsa_power_spectrum_alloc True True f_start f_stop r_bw mode
      = Inr (0, Some ?cfg)"
    using assms(2) by (rule alloc_succeeds)
  moreover have "fstart ?cfg = f_start" "fstop ?cfg = f_stop" "rbw ?cfg = r_bw"
    by simp_all
  ultimately show ?thesis
    by blast
qed

theorem buflen_is_floor_witness:
  "(2000000000 :: 64 word) < 3000000000 \<and> (100000 :: 32 word) \<noteq> 0
   \<and> (unat (3000000000 :: 64 word) - unat (2000000000 :: 64 word)) div unat (100000 :: 32 word)
      < 2 ^ 32
   \<and> wsa_power_spectrum_alloc True True 2000000000 3000000000 100000 ''SH''
      = Inr (0, Some default_cfg)
   \<and> unat (buflen default_cfg) = 10000 \<and> length (buf default_cfg) = 10000"
proof -
  have a: "(2000000000 :: 64 word) < 3000000000"
    by simp
  have b: "(100000 :: 32 word) \<noteq> 0"
    by simp
  have c: "(unat (3000000000 :: 64 word) - unat (2000000000 :: 64 word))
      div unat (100000 :: 32 word) < 2 ^ 32"
    by simp
  from buflen_is_floor [OF a b c, of "''SH''"] alloc_default_cfg a b c
  show ?thesis
    by (simp add: default_cfg_def)
qed

text \<open>
  C5, as the spec states it, fails on the code. The plan with \<open>fstart = fstop = 5\<close> and
  \<open>rbw = 1\<close> has \<open>fstop \<le> fstart\<close> and no bin. The allocation returns 0, and the tail
  of \<^verbatim>\<open>main\<close> goes on to flush the device, configure it, trigger a capture and read a
  packet; no error is reported.
\<close>

theorem invalid_plan_counterexample:
  "wsa_power_spectrum_alloc True True 5 5 1 ''SH'' = Inr (0, Some empty_cfg)
   \<and> main_sweep ''SHN'' True True if_device None 5 5 1 1 ''SH''
     = Some (Inr \<lparr>capture = if_capture empty_cfg, hzperbin_passed = 0,
                   peakfind_returned = 0, printed = [(None, None)]\<rparr>)
   \<and> Wsa_capture_block \<in> set (ops (if_capture empty_cfg))"
proof -
  have "wsa_power_spectrum_alloc True True 5 5 (ucast (1 :: 64 word)) ''SH''
      = Inr (0, Some empty_cfg)"
    using alloc_empty_cfg by simp
  from main_sweep_run [OF this capture_if_device, where pk = 1] alloc_empty_cfg
  show ?thesis
    by (simp add: MAXPEAKS_def if_capture_def)
qed

text \<open>
  C5, as amended. No plan with \<open>rbw > 0\<close> is rejected, whatever \<open>fstart\<close> and
  \<open>fstop\<close> are: an allocation that gets its memory returns 0 with \<^verbatim>\<open>buflen\<close> the
  32-bit truncation of the 64-bit wrap-around quotient \<^verbatim>\<open>(fstop - fstart) / rbw\<close>, and
  every sweep call on that configuration that returns has flushed and configured the
  device and triggered a capture.
\<close>

theorem no_plan_is_rejected:
  assumes "r_bw \<noteq> 0"
  shows "\<exists>cfg. wsa_power_spectrum_alloc True True f_start f_stop r_bw mode = Inr (0, Some cfg)
    \<and> buflen cfg = ucast ((f_stop - f_start) div ucast r_bw)
    \<and> (\<forall>out. wsa_capture_power_spectrum shn dev cfg bufp = Some out
          \<longrightarrow> take 5 (ops out) = [Wsa_flush_data, Wsa_set_rfe_input_mode shn,
                Wsa_set_samples_per_packet 1024, Wsa_set_packets_per_block 1,
                Wsa_capture_block])"
proof -
  let ?cfg = "\<lparr>fstart = f_start, fstop = f_stop, rbw = r_bw,
      buflen = ucast ((f_stop - f_start) div ucast r_bw),
      buf = replicate (unat (ucast ((f_stop - f_start) div ucast r_bw) :: 32 word))
        (None :: 'a cell)\<rparr>"
  have "take 5 (ops out) = [Wsa_flush_data, Wsa_set_rfe_input_mode shn,
      Wsa_set_samples_per_packet 1024, Wsa_set_packets_per_block 1, Wsa_capture_block]"
    if "wsa_capture_power_spectrum shn dev ?cfg bufp = Some out" for out
    using capture_cases [OF that] by auto
  moreover have "wsa_power_spectrum_alloc True True f_start f_stop r_bw mode
      = Inr (0, Some ?cfg)"
    using assms by (rule alloc_succeeds)
  moreover have "buflen ?cfg = ucast ((f_stop - f_start) div ucast r_bw)"
    by simp
  ultimately show ?thesis
    by blast
qed

theorem no_plan_is_rejected_witness:
  "(1 :: 32 word) \<noteq> 0
   \<and> wsa_power_spectrum_alloc True True 5 5 1 ''SH'' = Inr (0, Some empty_cfg)
   \<and> buflen empty_cfg = ucast (((5 :: 64 word) - 5) div ucast (1 :: 32 word))
   \<and> wsa_capture_power_spectrum ''SHN'' if_device empty_cfg None = Some (if_capture empty_cfg)
   \<and> take 5 (ops (if_capture empty_cfg)) = [Wsa_flush_data, Wsa_set_rfe_input_mode ''SHN'',
        Wsa_set_samples_per_packet 1024, Wsa_set_packets_per_block 1, Wsa_capture_block]"
proof -
  have a: "(1 :: 32 word) \<noteq> 0"
    by simp
  from no_plan_is_rejected [OF a, of 5 5 "''SH''" "''SHN''" if_device None]
    alloc_empty_cfg capture_if_device [of empty_cfg]
  show ?thesis
    by (simp add: empty_cfg_def if_capture_def)
qed

section \<open>Failure and order of a capture\<close>

text \<open>
  C6, as the spec states it, fails on the code. The device accepts the trigger, sends one
  context packet and then fails the next read with the code -5; the caller's \<^verbatim>\<open>*buf\<close> is
  not null. The sweep call returns -1, not the step's error code, and \<^verbatim>\<open>*buf\<close> has been
  set to the buffer all the same.
\<close>

theorem failed_step_counterexample:
  "fst (read_vrt_packet_result timeout_device 1) = - 5
   \<and> wsa_capture_power_spectrum ''SHN'' timeout_device small_cfg (Some [])
     = Some \<lparr>status = - 1,
         ops = [Wsa_flush_data, Wsa_set_rfe_input_mode ''SHN'', Wsa_set_samples_per_packet 1024,
                Wsa_set_packets_per_block 1, Wsa_capture_block,
                Wsa_read_vrt_packet 1024 5000, Wsa_read_vrt_packet 1024 5000],
         dumped = [header_of RECEIVER_STREAM_ID CONTEXT_PACKET_TYPE],
         cfg_after = small_cfg, buf_ptr = Some (buf small_cfg)\<rparr>"
proof -
  have a: "0 \<le> capture_block_result timeout_device"
    by (simp add: timeout_device_def)
  have b: "\<forall>j<1. 0 \<le> fst (read_vrt_packet_result timeout_device j)
      \<and> packet_type (snd (read_vrt_packet_result timeout_device j)) \<noteq> IF_PACKET_TYPE"
    by (simp add: timeout_device_def header_of_def)
  have c: "fst (read_vrt_packet_result timeout_device 1) < 0"
    by (simp add: timeout_device_def)
  from capture_read_fails [OF a b c, of "''SHN''" small_cfg "Some []"]
  show ?thesis
    by (simp add: timeout_device_def)
qed

text \<open>
  C6, as amended. For every sweep in which the capture trigger is rejected, or in which a
  packet read fails after any number of successfully read packets that are not IF packets,
  the sweep call returns -1, whatever the failing step's own error code was. It writes no
  bin: the configuration and its buffer, which the caller allocated and still owns, are as
  they were on entry.
\<close>

theorem failed_step_returns_minus_one:
  assumes "capture_block_result dev < 0
    \<or> (0 \<le> capture_block_result dev
       \<and> (\<forall>j<n. 0 \<le> fst (read_vrt_packet_result dev j)
            \<and> packet_type (snd (read_vrt_packet_result dev j)) \<noteq> IF_PACKET_TYPE)
       \<and> fst (read_vrt_packet_result dev n) < 0)"
  shows "\<exists>out. wsa_capture_power_spectrum shn dev cfg bufp = Some out
    \<and> status out = - 1 \<and> cfg_after out = cfg \<and> buf (cfg_after out) = buf cfg"
  using assms
proof
  assume "capture_block_result dev < 0"
  from capture_trigger_fails [OF this, of shn cfg bufp] show ?thesis
    by simp
next
  assume "0 \<le> capture_block_result dev
       \<and> (\<forall>j<n. 0 \<le> fst (read_vrt_packet_result dev j)
            \<and> packet_type (snd (read_vrt_packet_result dev j)) \<noteq> IF_PACKET_TYPE)
       \<and> fst (read_vrt_packet_result dev n) < 0"
  then have a: "0 \<le> capture_block_result dev"
    and b: "\<forall>j<n. 0 \<le> fst (read_vrt_packet_result dev j)
            \<and> packet_type (snd (read_vrt_packet_result dev j)) \<noteq> IF_PACKET_TYPE"
    and c: "fst (read_vrt_packet_result dev n) < 0"
    by simp_all
  from capture_read_fails [OF a b c, of shn cfg bufp] show ?thesis
    by simp
qed

theorem failed_step_returns_minus_one_witness:
  "0 \<le> capture_block_result timeout_device
   \<and> 0 \<le> fst (read_vrt_packet_result timeout_device 0)
   \<and> packet_type (snd (read_vrt_packet_result timeout_device 0)) \<noteq> IF_PACKET_TYPE
   \<and> fst (read_vrt_packet_result timeout_device 1) < 0
   \<and> (\<exists>out. wsa_capture_power_spectrum ''SHN'' timeout_device small_cfg None = Some out
        \<and> status out = - 1 \<and> cfg_after out = small_cfg
        \<and> buf (cfg_after out) = buf small_cfg)"
proof -
  have a: "0 \<le> capture_block_result timeout_device"
    by (simp add: timeout_device_def)
  have b: "\<forall>j<1. 0 \<le> fst (read_vrt_packet_result timeout_device j)
      \<and> packet_type (snd (read_vrt_packet_result timeout_device j)) \<noteq> IF_PACKET_TYPE"
    by (simp add: timeout_device_def header_of_def)
  have c: "fst (read_vrt_packet_result timeout_device 1) < 0"
    by (simp add: timeout_device_def)
  from a b c have "capture_block_result timeout_device < 0
    \<or> (0 \<le> capture_block_result timeout_device
       \<and> (\<forall>j<1. 0 \<le> fst (read_vrt_packet_result timeout_device j)
            \<and> packet_type (snd (read_vrt_packet_result timeout_device j)) \<noteq> IF_PACKET_TYPE)
       \<and> fst (read_vrt_packet_result timeout_device 1) < 0)"
    by blast
  from failed_step_returns_minus_one [OF this, of "''SHN''" small_cfg None] a b c
  show ?thesis
    by simp
qed

text \<open>
  C8, as the spec states it, fails on the code. \<^verbatim>\<open>main\<close> passes the mode \<^verbatim>\<open>"SH"\<close>, its
  default, and the macro is \<^verbatim>\<open>"SHN"\<close>: the first device call is the flush, not the input
  mode; the five calls up to the trigger are not the spec's sequence; and no call sets the
  mode \<^verbatim>\<open>"SH"\<close> the caller passed.
\<close>

theorem capture_order_counterexample:
  "main_sweep ''SHN'' True True if_device None 0 4 1 1 ''SH'' = Some (Inr small_run)
   \<and> hd (ops (capture small_run)) = Wsa_flush_data
   \<and> take 5 (ops (capture small_run)) \<noteq> spec_capture_setup ''SH''
   \<and> Wsa_set_rfe_input_mode ''SH'' \<notin> set (ops (capture small_run))"
  using main_small_run
  by (simp add: small_run_def if_capture_def spec_capture_setup_def)

text \<open>
  C8, as amended. Every sweep call that returns has made its device calls in this order:
  flush the stale data, set the input mode, set samples-per-packet to 1024 and
  packets-per-block to 1, trigger one capture, and then only packet reads (1024 samples,
  5000 ms). When the trigger was rejected there is no read. Otherwise there is at least one
  read, and the reads stop at the first read that fails or delivers an IF packet: every
  read before the last succeeded with a packet that is not an IF packet, and the last read
  either failed (the call returns -1) or succeeded with an IF packet (the call returns 0).
\<close>

theorem capture_call_order:
  assumes "wsa_capture_power_spectrum shn dev cfg bufp = Some out"
  shows "take 5 (ops out) = [Wsa_flush_data, Wsa_set_rfe_input_mode shn,
        Wsa_set_samples_per_packet 1024, Wsa_set_packets_per_block 1, Wsa_capture_block]
    \<and> drop 5 (ops out) = replicate (length (ops out) - 5) (Wsa_read_vrt_packet 1024 5000)
    \<and> (capture_block_result dev < 0 \<longrightarrow> length (ops out) = 5)
    \<and> (0 \<le> capture_block_result dev \<longrightarrow>
          5 < length (ops out)
          \<and> (\<forall>j < length (ops out) - 6.
                0 \<le> fst (read_vrt_packet_result dev j)
                \<and> packet_type (snd (read_vrt_packet_result dev j)) \<noteq> IF_PACKET_TYPE)
          \<and> (fst (read_vrt_packet_result dev (length (ops out) - 6)) < 0 \<and> status out = - 1
              \<or> 0 \<le> fst (read_vrt_packet_result dev (length (ops out) - 6))
                \<and> packet_type (snd (read_vrt_packet_result dev (length (ops out) - 6)))
                    = IF_PACKET_TYPE
                \<and> status out = 0))"
proof -
  from capture_cases [OF assms]
  have order: "take 5 (ops out) = [Wsa_flush_data, Wsa_set_rfe_input_mode shn,
        Wsa_set_samples_per_packet 1024, Wsa_set_packets_per_block 1, Wsa_capture_block]
    \<and> drop 5 (ops out) = replicate (length (ops out) - 5) (Wsa_read_vrt_packet 1024 5000)
    \<and> (capture_block_result dev < 0 \<longrightarrow> length (ops out) = 5)"
    by auto
  have reads: "5 < length (ops out)
      \<and> (\<forall>j < length (ops out) - 6.
            0 \<le> fst (read_vrt_packet_result dev j)
            \<and> packet_type (snd (read_vrt_packet_result dev j)) \<noteq> IF_PACKET_TYPE)
      \<and> (fst (read_vrt_packet_result dev (length (ops out) - 6)) < 0 \<and> status out = - 1
          \<or> 0 \<le> fst (read_vrt_packet_result dev (length (ops out) - 6))
            \<and> packet_type (snd (read_vrt_packet_result dev (length (ops out) - 6)))
                = IF_PACKET_TYPE
            \<and> status out = 0)"
    if ok: "0 \<le> capture_block_result dev"
  proof -
    from capture_reads [OF assms ok] obtain k where
      ops: "ops out = [Wsa_flush_data, Wsa_set_rfe_input_mode shn,
        Wsa_set_samples_per_packet 1024, Wsa_set_packets_per_block 1, Wsa_capture_block]
        @ replicate (Suc k) (Wsa_read_vrt_packet 1024 5000)"
      and skipped: "\<forall>j<k. 0 \<le> fst (read_vrt_packet_result dev j)
            \<and> packet_type (snd (read_vrt_packet_result dev j)) \<noteq> IF_PACKET_TYPE"
      and stop: "fst (read_vrt_packet_result dev k) < 0 \<and> status out = - 1
          \<or> 0 \<le> fst (read_vrt_packet_result dev k)
            \<and> packet_type (snd (read_vrt_packet_result dev k)) = IF_PACKET_TYPE
            \<and> status out = 0"
      by blast
    from ops have "length (ops out) = 6 + k"
      by simp
    then have "5 < length (ops out)" and "length (ops out) - 6 = k"
      by simp_all
    with skipped stop show ?thesis
      by simp
  qed
  from order reads show ?thesis
    by blast
qed

theorem capture_call_order_witness:
  "wsa_capture_power_spectrum ''SHN'' noisy_device small_cfg None = Some noisy_capture
   \<and> 0 \<le> capture_block_result noisy_device
   \<and> take 5 (ops noisy_capture) = [Wsa_flush_data, Wsa_set_rfe_input_mode ''SHN'',
        Wsa_set_samples_per_packet 1024, Wsa_set_packets_per_block 1, Wsa_capture_block]
   \<and> drop 5 (ops noisy_capture) = [Wsa_read_vrt_packet 1024 5000,
        Wsa_read_vrt_packet 1024 5000, Wsa_read_vrt_packet 1024 5000]
   \<and> length (ops noisy_capture) - 6 = 2
   \<and> packet_type (snd (read_vrt_packet_result noisy_device 0)) \<noteq> IF_PACKET_TYPE
   \<and> packet_type (snd (read_vrt_packet_result noisy_device 1)) \<noteq> IF_PACKET_TYPE
   \<and> 0 \<le> fst (read_vrt_packet_result noisy_device 2)
   \<and> packet_type (snd (read_vrt_packet_result noisy_device 2)) = IF_PACKET_TYPE
   \<and> status noisy_capture = 0"
  using capture_call_order [OF capture_noisy_device] capture_noisy_device
  by (simp add: noisy_capture_def noisy_device_def header_of_def)

end
